theory Spec2Isabelle
  imports
    Complex_Main
    "HOL-Library.Char_ord"
    "HOL-Library.List_Lexorder"
    "HOL-Library.Product_Lexorder"
    "HOL-Library.Multiset"
begin

section \<open>Python values and the operators the notebooks use\<close>

text \<open>
  The testing notebook calls \<open>factorial\<close> with integers and with the string \<open>'bob'\<close>.
  A value is therefore an unbounded Python integer or a string. An exception is a value
  of type \<open>error\<close>; a computation that may raise returns \<open>error + 'a\<close>, with
  \<open>Inl\<close> for the exception.
\<close>

datatype pyval = PyInt int | PyStr string

datatype error = ValueError | TypeError | RecursionError | KeyError | NameError

text \<open>
  \<open>a < b\<close> in Python 3 (the kernel of the testing notebook): integers compare by value,
  strings lexicographically, and an integer against a string raises TypeError.
\<close>

fun py_lt :: "pyval \<Rightarrow> pyval \<Rightarrow> error + bool" where
  "py_lt (PyInt a) (PyInt b) = Inr (a < b)"
| "py_lt (PyStr a) (PyStr b) = Inr (a < b)"
| "py_lt (PyInt a) (PyStr b) = Inl TypeError"
| "py_lt (PyStr a) (PyInt b) = Inl TypeError"

text \<open>\<open>a == b\<close> never raises; an integer is never equal to a string.\<close>

definition py_eq :: "pyval \<Rightarrow> pyval \<Rightarrow> bool" where
  "py_eq a b = (a = b)"

text \<open>\<open>a - b\<close> is defined on two integers only.\<close>

fun py_sub :: "pyval \<Rightarrow> pyval \<Rightarrow> error + pyval" where
  "py_sub (PyInt a) (PyInt b) = Inr (PyInt (a - b))"
| "py_sub (PyInt a) (PyStr b) = Inl TypeError"
| "py_sub (PyStr a) b = Inl TypeError"

text \<open>
  \<open>a * b\<close> multiplies two integers and repeats a string an integer number of times
  (no times at all when the integer is negative).
\<close>

fun py_mul :: "pyval \<Rightarrow> pyval \<Rightarrow> error + pyval" where
  "py_mul (PyInt a) (PyInt b) = Inr (PyInt (a * b))"
| "py_mul (PyStr s) (PyInt k) = Inr (PyStr (concat (replicate (nat k) s)))"
| "py_mul (PyInt k) (PyStr s) = Inr (PyStr (concat (replicate (nat k) s)))"
| "py_mul (PyStr s) (PyStr t) = Inl TypeError"


section \<open>The testing notebook: two versions of factorial\<close>

subsection \<open>The rewritten factorial\<close>

text \<open>
  \<^verbatim>\<open>
  def factorial(n):
      if n < 0:
          raise ValueError('n must be non-negative')
      if n == 0:
          return 1
      return n * factorial(n - 1)
  \<close>
  The operands of \<open>n * factorial(n - 1)\<close> are evaluated left to right: the subtraction,
  the recursive call, then the multiplication. An exception of an operator leaves the
  function at once.
\<close>

function factorial :: "pyval \<Rightarrow> error + pyval" where
  "factorial n =
     (case py_lt n (PyInt 0) of
        Inl e \<Rightarrow> Inl e
      | Inr negative \<Rightarrow>
          if negative then Inl ValueError
          else if py_eq n (PyInt 0) then Inr (PyInt 1)
          else (case py_sub n (PyInt 1) of
                  Inl e \<Rightarrow> Inl e
                | Inr m \<Rightarrow> (case factorial m of
                              Inl e \<Rightarrow> Inl e
                            | Inr r \<Rightarrow> py_mul n r)))"
  by pat_completeness auto
termination
proof (relation "measure (\<lambda>v. case v of PyInt i \<Rightarrow> nat i | PyStr s \<Rightarrow> 0)")
  fix n negative m
  assume "py_lt n (PyInt 0) = Inr negative" "\<not> negative" "\<not> py_eq n (PyInt 0)"
    "py_sub n (PyInt 1) = Inr m"
  then show "(m, n) \<in> measure (\<lambda>v. case v of PyInt i \<Rightarrow> nat i | PyStr s \<Rightarrow> 0)"
    by (cases n) (auto simp: py_eq_def)
qed simp

declare factorial.simps [simp del]

text \<open>
  The same function, recording the operations it performs in the order it performs them:
  the comparison \<open>n < 0\<close>, the comparison \<open>n == 0\<close>, the subtraction, the recursive call
  and the multiplication.
\<close>

datatype event = Compare_lt | Compare_eq | Subtract | Call | Multiply

function factorial_trace :: "pyval \<Rightarrow> event list \<times> (error + pyval)" where
  "factorial_trace n =
     (case py_lt n (PyInt 0) of
        Inl e \<Rightarrow> ([Compare_lt], Inl e)
      | Inr negative \<Rightarrow>
          if negative then ([Compare_lt], Inl ValueError)
          else if py_eq n (PyInt 0) then ([Compare_lt, Compare_eq], Inr (PyInt 1))
          else (case py_sub n (PyInt 1) of
                  Inl e \<Rightarrow> ([Compare_lt, Compare_eq, Subtract], Inl e)
                | Inr m \<Rightarrow>
                    (case factorial_trace m of
                       (tr, Inl e) \<Rightarrow>
                         ([Compare_lt, Compare_eq, Subtract, Call] @ tr, Inl e)
                     | (tr, Inr r) \<Rightarrow>
                         ([Compare_lt, Compare_eq, Subtract, Call] @ tr @ [Multiply],
                          py_mul n r))))"
  by pat_completeness auto
termination
proof (relation "measure (\<lambda>v. case v of PyInt i \<Rightarrow> nat i | PyStr s \<Rightarrow> 0)")
  fix n negative m
  assume "py_lt n (PyInt 0) = Inr negative" "\<not> negative" "\<not> py_eq n (PyInt 0)"
    "py_sub n (PyInt 1) = Inr m"
  then show "(m, n) \<in> measure (\<lambda>v. case v of PyInt i \<Rightarrow> nat i | PyStr s \<Rightarrow> 0)"
    by (cases n) (auto simp: py_eq_def)
qed simp

declare factorial_trace.simps [simp del]


subsection \<open>The initial factorial\<close>




subsection \<open>The test class\<close>

text \<open>
  A test method is a predicate on the function under test: it holds when the method
  passes. The function under test gives the outcome of a call: \<open>None\<close> when the call
  does not return, \<open>Some (Inl e)\<close> when it raises \<open>e\<close>, \<open>Some (Inr v)\<close> when it
  returns \<open>v\<close>. \<open>assertEqual(f(a), b)\<close> passes when the call returns a value equal
  to \<open>b\<close>; \<open>with assertRaises(E): f(a)\<close> passes when the call raises \<open>E\<close>.
\<close>

type_synonym outcome = "(error + pyval) option"

definition returning :: "(pyval \<Rightarrow> error + pyval) \<Rightarrow> pyval \<Rightarrow> outcome" where
  "returning f v = Some (f v)"


definition assertRaises :: "error \<Rightarrow> outcome \<Rightarrow> bool" where
  "assertRaises exc call = (call = Some (Inl exc))"





definition test_non_integer :: "(pyval \<Rightarrow> outcome) \<Rightarrow> bool" where
  "test_non_integer f = assertRaises TypeError (f (PyStr ''bob''))"


section \<open>The map/reduce notebook: counting words\<close>

text \<open>
  The notebook runs on Python 2, where a \<open>str\<close> is a sequence of bytes and
  \<open>text.split()\<close> splits at runs of the six whitespace bytes (space, tab, line feed,
  vertical tab, form feed, carriage return), dropping empty pieces.
\<close>

definition isspace :: "char \<Rightarrow> bool" where
  "isspace c = (c \<in> set [CHR '' '', CHR 0x09, CHR 0x0A, CHR 0x0B, CHR 0x0C, CHR 0x0D])"

text \<open>\<open>split_from cur s\<close>: the word being read is \<open>cur\<close>, the text left is \<open>s\<close>.\<close>

fun split_from :: "string \<Rightarrow> string \<Rightarrow> string list" where
  "split_from cur [] = (if cur = [] then [] else [cur])"
| "split_from cur (c # s) =
     (if isspace c then (if cur = [] then split_from [] s else cur # split_from [] s)
      else split_from (cur @ [c]) s)"

definition split :: "string \<Rightarrow> string list" where
  "split text = split_from [] text"

text \<open>
  The direct solution:
  \<^verbatim>\<open>
  counts_per_word = {}
  for word in text.split():
      if word not in counts_per_word:
          counts_per_word[word] = 0
      counts_per_word[word] += 1
  \<close>
  A dictionary is a map; reading a key that is absent raises KeyError.
\<close>

fun counts_per_word_loop ::
  "string list \<Rightarrow> (string \<rightharpoonup> int) \<Rightarrow> error + (string \<rightharpoonup> int)" where
  "counts_per_word_loop [] d = Inr d"
| "counts_per_word_loop (word # rest) d =
     (let d1 = (if word \<notin> dom d then d(word \<mapsto> 0) else d)
      in case d1 word of
           None \<Rightarrow> Inl KeyError
         | Some c \<Rightarrow> counts_per_word_loop rest (d1(word \<mapsto> c + 1)))"

definition counts_per_word :: "string \<Rightarrow> error + (string \<rightharpoonup> int)" where
  "counts_per_word text = counts_per_word_loop (split text) Map.empty"

text \<open>
  Step 1:
  \<^verbatim>\<open>
  word_instances = []
  for word in text.split():
      word_instances.append((word, 1))
  \<close>
\<close>

fun word_instances_loop :: "string list \<Rightarrow> (string \<times> int) list \<Rightarrow> (string \<times> int) list" where
  "word_instances_loop [] acc = acc"
| "word_instances_loop (word # rest) acc = word_instances_loop rest (acc @ [(word, 1)])"

definition word_instances :: "string \<Rightarrow> (string \<times> int) list" where
  "word_instances text = word_instances_loop (split text) []"

text \<open>
  \<open>itertools.groupby(xs, key)\<close> cuts \<open>xs\<close> into its maximal runs of neighbours with
  equal keys and gives each run with its key.
\<close>

function groupby :: "('a \<Rightarrow> 'k) \<Rightarrow> 'a list \<Rightarrow> ('k \<times> 'a list) list" where
  "groupby key [] = []"
| "groupby key (x # xs) =
     (key x, x # takeWhile (\<lambda>y. key y = key x) xs) #
       groupby key (dropWhile (\<lambda>y. key y = key x) xs)"
  by pat_completeness auto
termination
  by (relation "measure (\<lambda>(key, xs). length xs)")
     (auto simp: length_dropWhile_le less_Suc_eq_le)

text \<open>
  Step 2:
  \<^verbatim>\<open>
  collated_word_instances = [
      (k, [x[1] for x in v])
      for k, v in itertools.groupby(sorted(word_instances), lambda x: x[0])
  ]
  \<close>
  \<open>sorted\<close> orders the tuples lexicographically: by the word (bytewise), then by the
  count.
\<close>

definition collated_word_instances :: "string \<Rightarrow> (string \<times> int list) list" where
  "collated_word_instances text =
     map (\<lambda>(k, v). (k, map snd v)) (groupby fst (sort (word_instances text)))"

text \<open>
  Step 3:
  \<^verbatim>\<open>
  word_counts = {}
  for word, counts in collated_word_instances:
      word_counts[word] = sum(counts)
  \<close>
\<close>

fun word_counts_loop :: "(string \<times> int list) list \<Rightarrow> (string \<rightharpoonup> int) \<Rightarrow> (string \<rightharpoonup> int)" where
  "word_counts_loop [] d = d"
| "word_counts_loop ((word, counts) # rest) d =
     word_counts_loop rest (d(word \<mapsto> sum_list counts))"

definition word_counts :: "string \<Rightarrow> (string \<rightharpoonup> int)" where
  "word_counts text = word_counts_loop (collated_word_instances text) Map.empty"


section \<open>The map/reduce notebook: estimating pi\<close>

text \<open>
  \<^verbatim>\<open>
  def reducefn(key, value):
      inside = 0
      total = 0
      for v in value:
          inside += v[0]
          total += v[1]
      return inside, total
  \<close>
\<close>

fun reducefn_loop :: "(int \<times> int) list \<Rightarrow> int \<Rightarrow> int \<Rightarrow> int \<times> int" where
  "reducefn_loop [] inside total' = (inside, total')"
| "reducefn_loop (v # value) inside total' =
     reducefn_loop value (inside + fst v) (total' + snd v)"

definition reducefn :: "string \<Rightarrow> (int \<times> int) list \<Rightarrow> int \<times> int" where
  "reducefn key value = reducefn_loop value 0 0"








section \<open>The decorator notebook\<close>

text \<open>
  A zero-argument function acts on the program state \<open>'s\<close>, returns a value and has
  visible effects, in order: the lines it prints and the functions it calls. A function
  object carries its name and its body; \<open>call\<close> is the call \<open>f()\<close>.
\<close>

datatype effect = Printed string | Called string

type_synonym ('s, 'r) body = "'s \<Rightarrow> 'r \<times> effect list \<times> 's"

datatype ('s, 'r) func = PyFunc (func_name: string) (func_body: "('s, 'r) body")

definition call :: "('s, 'r) func \<Rightarrow> ('s, 'r) body" where
  "call f s = (case func_body f s of (r, out, s') \<Rightarrow> (r, Called (func_name f) # out, s'))"

definition print :: "string \<Rightarrow> ('s, unit) body" where
  "print line s = ((), [Printed line], s)"

text \<open>
  \<^verbatim>\<open>
  def print_hi_first(func):
      def inner():
          print('hi')
          return func()
      return inner
  \<close>
\<close>

definition inner :: "('s, 'r) func \<Rightarrow> ('s, 'r) body" where
  "inner func s =
     (case print ''hi'' s of
        (none, out1, s1) \<Rightarrow>
          (case call func s1 of
             (r, out2, s2) \<Rightarrow> (r, out1 @ out2, s2)))"

definition print_hi_first :: "('s, 'r) func \<Rightarrow> ('s, 'r) func" where
  "print_hi_first func = PyFunc ''inner'' (inner func)"

text \<open>
  The body of
  \<^verbatim>\<open>
  def print_three():
      print('three')
  \<close>
\<close>

definition print_three_body :: "('s, unit) body" where
  "print_three_body s = print ''three'' s"

text \<open>
  The global names of the notebook are a map from names to function objects. A
  \<open>def\<close> statement binds the name to the new function object; under a decorator
  it binds the name to what the decorator returns for that object. Calling an unbound
  name raises NameError.
\<close>

type_synonym ('s, 'r) globals = "string \<rightharpoonup> ('s, 'r) func"

definition def_stmt :: "string \<Rightarrow> ('s, 'r) body \<Rightarrow> ('s, 'r) globals \<Rightarrow> ('s, 'r) globals" where
  "def_stmt name b g = g(name \<mapsto> PyFunc name b)"

definition decorated_def ::
  "(('s, 'r) func \<Rightarrow> ('s, 'r) func) \<Rightarrow> string \<Rightarrow> ('s, 'r) body \<Rightarrow>
     ('s, 'r) globals \<Rightarrow> ('s, 'r) globals" where
  "decorated_def decorator name b g = g(name \<mapsto> decorator (PyFunc name b))"

definition call_name ::
  "string \<Rightarrow> ('s, 'r) globals \<Rightarrow> 's \<Rightarrow> error + ('r \<times> effect list \<times> 's)" where
  "call_name name g s = (case g name of None \<Rightarrow> Inl NameError | Some f \<Rightarrow> Inr (call f s))"

text \<open>The lines that reach standard output.\<close>

fun printed :: "effect list \<Rightarrow> string list" where
  "printed [] = []"
| "printed (Printed line # es) = line # printed es"
| "printed (Called name # es) = printed es"


section \<open>The logging notebook\<close>

text \<open>
  The notebook configures the standard \<open>logging\<close> module and states its filtering rule
  in prose. The part of the module that the notebook exercises is modelled here: the
  root logger, the logger \<open>log = logging.getLogger(__name__)\<close> below it, their
  levels and handlers, and the module-wide \<open>disable\<close> threshold. Levels are numbers.
\<close>

definition NOTSET :: nat where "NOTSET = 0"
definition DEBUG :: nat where "DEBUG = 10"
definition INFO :: nat where "INFO = 20"
definition WARNING :: nat where "WARNING = 30"
definition ERROR :: nat where "ERROR = 40"
definition CRITICAL :: nat where "CRITICAL = 50"

record handler =
  handler_level :: nat

record logger =
  level :: nat
  handlers :: "handler list"
  propagate :: bool

record logging =
  root_logger :: logger
  log_logger :: logger
  disable :: nat
  stderr :: "string list"

text \<open>
  The module as imported: the root logger is at WARNING and has no handler;
  \<open>getLogger(__name__)\<close> creates \<open>log\<close> at NOTSET, without handlers, propagating to
  the root; nothing is disabled.
\<close>

definition imported :: logging where
  "imported =
     \<lparr>root_logger = \<lparr>level = WARNING, handlers = [], propagate = True\<rparr>,
      log_logger = \<lparr>level = NOTSET, handlers = [], propagate = True\<rparr>,
      disable = 0,
      stderr = []\<rparr>"

text \<open>
  \<open>logging.basicConfig(format='%(message)s', level=lvl)\<close>: when the root logger has no
  handler, it gets a stream handler to standard error (handler level NOTSET, each record
  written as its message) and the level \<open>lvl\<close>; otherwise nothing happens.
\<close>

definition basicConfig :: "nat \<Rightarrow> logging \<Rightarrow> logging" where
  "basicConfig lvl s =
     (if handlers (root_logger s) = []
      then s\<lparr>root_logger :=
               (root_logger s)\<lparr>handlers := [\<lparr>handler_level = NOTSET\<rparr>], level := lvl\<rparr>\<rparr>
      else s)"

text \<open>\<open>log.setLevel(lvl)\<close>.\<close>

definition setLevel :: "nat \<Rightarrow> logging \<Rightarrow> logging" where
  "setLevel lvl s = s\<lparr>log_logger := (log_logger s)\<lparr>level := lvl\<rparr>\<rparr>"

text \<open>
  \<open>Logger.getEffectiveLevel\<close>: the first level other than NOTSET on the way from
  \<open>log\<close> to the root.
\<close>

definition getEffectiveLevel :: "logging \<Rightarrow> nat" where
  "getEffectiveLevel s =
     (if level (log_logger s) \<noteq> NOTSET then level (log_logger s)
      else if level (root_logger s) \<noteq> NOTSET then level (root_logger s)
      else NOTSET)"

text \<open>\<open>Logger.isEnabledFor\<close>.\<close>

definition isEnabledFor :: "nat \<Rightarrow> logging \<Rightarrow> bool" where
  "isEnabledFor lvl s =
     (if disable s \<ge> lvl then False else lvl \<ge> getEffectiveLevel s)"

text \<open>
  \<open>Logger.callHandlers\<close>: every handler of \<open>log\<close>, then (when \<open>log\<close> propagates)
  every handler of the root, writes the message if the record's level reaches the
  handler's level. When no handler was found at all, the handler of last resort writes
  records at WARNING and above.
\<close>

fun emit_all :: "handler list \<Rightarrow> nat \<Rightarrow> string \<Rightarrow> string list \<Rightarrow> string list" where
  "emit_all [] lvl msg out = out"
| "emit_all (h # hs) lvl msg out =
     emit_all hs lvl msg (if lvl \<ge> handler_level h then out @ [msg] else out)"

definition callHandlers :: "nat \<Rightarrow> string \<Rightarrow> logging \<Rightarrow> logging" where
  "callHandlers lvl msg s =
     (let hs = handlers (log_logger s) @
               (if propagate (log_logger s) then handlers (root_logger s) else [])
      in if hs = []
         then (if lvl \<ge> WARNING then s\<lparr>stderr := stderr s @ [msg]\<rparr> else s)
         else s\<lparr>stderr := emit_all hs lvl msg (stderr s)\<rparr>)"

text \<open>
  \<open>log.log(lvl, msg)\<close> and the methods \<open>log.debug(msg)\<close>, \<open>log.info(msg)\<close>, ...:
  the record is created and handled only if the logger is enabled for the level.
\<close>

definition log_at :: "nat \<Rightarrow> string \<Rightarrow> logging \<Rightarrow> logging" where
  "log_at lvl msg s = (if isEnabledFor lvl s then callHandlers lvl msg s else s)"

definition log_debug :: "string \<Rightarrow> logging \<Rightarrow> logging" where
  "log_debug msg s = log_at DEBUG msg s"

definition log_info :: "string \<Rightarrow> logging \<Rightarrow> logging" where
  "log_info msg s = log_at INFO msg s"

definition log_warning :: "string \<Rightarrow> logging \<Rightarrow> logging" where
  "log_warning msg s = log_at WARNING msg s"

definition log_error :: "string \<Rightarrow> logging \<Rightarrow> logging" where
  "log_error msg s = log_at ERROR msg s"

definition log_critical :: "string \<Rightarrow> logging \<Rightarrow> logging" where
  "log_critical msg s = log_at CRITICAL msg s"

text \<open>
  The logger as the notebook configures it in its first cell,
  \<open>logging.basicConfig(format='%(message)s', level=logging.DEBUG, ...)\<close>, with \<open>out\<close>
  the lines already written to standard error.
\<close>

definition configured :: "string list \<Rightarrow> logging" where
  "configured out = (basicConfig DEBUG imported)\<lparr>stderr := out\<rparr>"


section \<open>Properties of the two factorial functions\<close>











lemma factorial_trace_result: "snd (factorial_trace n) = factorial n"
proof (induction n rule: factorial.induct)
  case (1 n)
  show ?case
    by (subst factorial_trace.simps, subst factorial.simps)
       (auto split: sum.splits prod.splits simp: "1" [symmetric])
qed

lemma comparison_error_propagates:
  "py_lt v (PyInt 0) = Inl e \<Longrightarrow>
     factorial v = Inl e \<and> factorial_trace v = ([Compare_lt], Inl e)"
  by (simp add: factorial.simps factorial_trace.simps)

text \<open>
  Claim C9. A value that cannot be ordered against 0, such as the string \<open>'bob'\<close>,
  makes the rewritten factorial raise TypeError. The exception is the one of the
  comparison \<open>n < 0\<close>: the body itself names no error but ValueError, and the trace of
  the call holds the comparison alone, so no subtraction, recursive call or multiplication
  has happened. The test \<open>test_non_integer\<close> passes for this reason.
\<close>

theorem factorial_non_integer_raises_TypeError:
  "(py_lt v (PyInt 0) = Inl TypeError \<longrightarrow>
      factorial v = Inl TypeError \<and> factorial_trace v = ([Compare_lt], Inl TypeError)) \<and>
   py_lt (PyStr s) (PyInt 0) = Inl TypeError \<and>
   factorial (PyStr ''bob'') = Inl TypeError \<and>
   test_non_integer (returning factorial)"
proof (intro conjI impI)
  assume "py_lt v (PyInt 0) = Inl TypeError"
  then show "factorial v = Inl TypeError"
    and "factorial_trace v = ([Compare_lt], Inl TypeError)"
    by (simp_all add: comparison_error_propagates)
next
  show "py_lt (PyStr s) (PyInt 0) = Inl TypeError"
    by simp
next
  have bob: "py_lt (PyStr ''bob'') (PyInt 0) = Inl TypeError"
    by simp
  from comparison_error_propagates [OF bob]
  show "factorial (PyStr ''bob'') = Inl TypeError"
    by simp
  then show "test_non_integer (returning factorial)"
    by (simp add: test_non_integer_def assertRaises_def returning_def)
qed

theorem factorial_non_integer_raises_TypeError_witness:
  "py_lt (PyStr ''bob'') (PyInt 0) = Inl TypeError \<and>
   factorial (PyStr ''bob'') = Inl TypeError \<and>
   factorial_trace (PyStr ''bob'') = ([Compare_lt], Inl TypeError)"
  using factorial_non_integer_raises_TypeError [of "PyStr ''bob''"] by simp

subsection \<open>The initial factorial\<close>











section \<open>Properties of the word count\<close>

lemma counts_per_word_loop_eq:
  "counts_per_word_loop ws d =
     Inr (\<lambda>w. if w \<in> set ws
               then Some ((case d w of None \<Rightarrow> 0 | Some c \<Rightarrow> c) + int (count_list ws w))
               else d w)"
proof (induction ws arbitrary: d)
  case Nil
  show ?case by simp
next
  case (Cons word rest)
  show ?case
    by (auto simp: Cons.IH Let_def fun_eq_iff dom_def split: option.splits)
qed

lemma word_instances_loop_eq: "word_instances_loop ws acc = acc @ map (\<lambda>w. (w, 1)) ws"
  by (induction ws arbitrary: acc) simp_all

lemma takeWhile_sorted_key:
  fixes key :: "'a \<Rightarrow> 'k :: linorder"
  shows "sorted (map key (x # xs)) \<Longrightarrow>
     takeWhile (\<lambda>y. key y = key x) xs = filter (\<lambda>y. key y = key x) xs"
proof (induction xs)
  case Nil
  show ?case by simp
next
  case (Cons y ys)
  show ?case
  proof (cases "key y = key x")
    case True
    with Cons show ?thesis by simp
  next
    case False
    with Cons.prems have "key x < key y" and "\<forall>z \<in> set ys. key y \<le> key z"
      by auto
    then have "\<forall>z \<in> set ys. key z \<noteq> key x"
      by fastforce
    with False show ?thesis
      by (simp add: filter_empty_conv)
  qed
qed

lemma dropWhile_sorted_key:
  fixes key :: "'a \<Rightarrow> 'k :: linorder"
  shows "sorted (map key (x # xs)) \<Longrightarrow>
     dropWhile (\<lambda>y. key y = key x) xs = filter (\<lambda>y. key y \<noteq> key x) xs"
proof (induction xs)
  case Nil
  show ?case by simp
next
  case (Cons y ys)
  show ?case
  proof (cases "key y = key x")
    case True
    with Cons show ?thesis by simp
  next
    case False
    with Cons.prems have "key x < key y" and "\<forall>z \<in> set ys. key y \<le> key z"
      by auto
    then have "\<forall>z \<in> set ys. key z \<noteq> key x"
      by fastforce
    with False show ?thesis
      by (simp add: filter_id_conv)
  qed
qed

lemma word_counts_loop_groupby:
  fixes xs :: "(string \<times> int) list" and key :: "string \<times> int \<Rightarrow> string"
  shows "sorted (map key xs) \<Longrightarrow>
     word_counts_loop (map (\<lambda>(k, v). (k, map snd v)) (groupby key xs)) d =
       (\<lambda>w. if w \<in> key ` set xs
             then Some (sum_list (map snd (filter (\<lambda>p. key p = w) xs)))
             else d w)"
proof (induction key xs arbitrary: d rule: groupby.induct)
  case (1 key)
  show ?case by simp
next
  case (2 key x xs)
  let ?dr = "dropWhile (\<lambda>y. key y = key x) xs"
  have tk: "takeWhile (\<lambda>y. key y = key x) xs = filter (\<lambda>y. key y = key x) xs"
    using "2.prems" by (rule takeWhile_sorted_key)
  have dr: "?dr = filter (\<lambda>y. key y \<noteq> key x) xs"
    using "2.prems" by (rule dropWhile_sorted_key)
  have "sorted (map key xs)"
    using "2.prems" by simp
  then have "sorted (map key ?dr)"
    unfolding dr by (simp add: sorted_filter)
  note IH = "2.IH" [OF this, unfolded dr]
  have step: "word_counts_loop (map (\<lambda>(k, v). (k, map snd v)) (groupby key (x # xs))) d =
     word_counts_loop
       (map (\<lambda>(k, v). (k, map snd v)) (groupby key (filter (\<lambda>y. key y \<noteq> key x) xs)))
       (d(key x \<mapsto> sum_list (map snd (x # filter (\<lambda>y. key y = key x) xs))))"
    by (simp add: tk dr del: dropWhile_eq_Nil_conv)
  show ?case
  proof (rule ext)
    fix w
    show "word_counts_loop (map (\<lambda>(k, v). (k, map snd v)) (groupby key (x # xs))) d w =
      (if w \<in> key ` set (x # xs)
       then Some (sum_list (map snd (filter (\<lambda>p. key p = w) (x # xs))))
       else d w)"
    proof (cases "w = key x")
      case True
      have "key x \<notin> key ` set (filter (\<lambda>y. key y \<noteq> key x) xs)"
        by auto
      moreover have "filter (\<lambda>p. key p = key x) xs = filter (\<lambda>y. key y = key x) xs"
        by simp
      ultimately show ?thesis
        unfolding step IH using True by simp
    next
      case False
      have a: "w \<in> key ` set (filter (\<lambda>y. key y \<noteq> key x) xs) \<longleftrightarrow> w \<in> key ` set xs"
        using False by auto
      have b: "filter (\<lambda>p. key p = w) (filter (\<lambda>y. key y \<noteq> key x) xs) = filter (\<lambda>p. key p = w) xs"
        using False by (auto intro!: filter_cong)
      show ?thesis
        unfolding step IH a b using False by simp
    qed
  qed
qed

lemma sorted_fst_of_sorted:
  fixes xs :: "('a :: linorder \<times> 'b :: linorder) list"
  shows "sorted xs \<Longrightarrow> sorted (map fst xs)"
  by (induction xs) (auto simp: less_eq_prod_def)

lemma sum_snd_sort:
  fixes xs :: "(string \<times> int) list"
  shows "sum_list (map snd (filter P (sort xs))) = sum_list (map snd (filter P xs))"
proof -
  have "sum_list (map snd (filter P (sort xs))) =
      sum_mset (image_mset snd (mset (filter P (sort xs))))"
    by (metis mset_map sum_mset_sum_list)
  also have "\<dots> = sum_mset (image_mset snd (mset (filter P xs)))"
    by simp
  also have "\<dots> = sum_list (map snd (filter P xs))"
    by (metis mset_map sum_mset_sum_list)
  finally show ?thesis .
qed

lemma sum_snd_instances:
  "sum_list (map snd (filter (\<lambda>p. fst p = w) (map (\<lambda>w. (w, 1 :: int)) ws))) = int (count_list ws w)"
  by (induction ws) simp_all

lemma word_counts_loop_pipeline:
  "word_counts_loop (map (\<lambda>(k, v). (k, map snd v)) (groupby fst (sort (map (\<lambda>w. (w, 1)) ws)))) Map.empty =
     (\<lambda>w. if w \<in> set ws then Some (int (count_list ws w)) else None)"
proof -
  let ?xs = "sort (map (\<lambda>w. (w, 1 :: int)) ws)"
  have "sorted (map fst ?xs)"
    by (rule sorted_fst_of_sorted) simp
  from word_counts_loop_groupby [OF this]
  show ?thesis
    by (simp add: sum_snd_sort sum_snd_instances image_image cong: if_cong)
qed

text \<open>
  Claim C3. For every text, the dictionary that the three steps build (emit a pair
  \<open>(word, 1)\<close> for each word, sort and group the pairs by word, sum the counts of each
  group) is the dictionary that the direct loop builds, and the direct loop raises no
  KeyError. Both map each word of the text to its number of occurrences and no other
  string to anything.
\<close>

theorem word_count_pipeline_equals_direct_count:
  "counts_per_word text = Inr (word_counts text) \<and>
   word_counts text =
     (\<lambda>w. if w \<in> set (split text) then Some (int (count_list (split text) w)) else None)"
  by (simp add: counts_per_word_def word_counts_def collated_word_instances_def
      word_instances_def word_instances_loop_eq counts_per_word_loop_eq
      word_counts_loop_pipeline cong: if_cong)


section \<open>Properties of the pi estimation\<close>

lemma reducefn_loop_sums:
  "reducefn_loop value inside total' =
     (inside + sum_list (map fst value), total' + sum_list (map snd value))"
  by (induction "value" arbitrary: inside total') simp_all

lemma reducefn_sums:
  "reducefn key value = (sum_list (map fst value), sum_list (map snd value))"
  by (simp add: reducefn_def reducefn_loop_sums)

lemma sum_list_map_mset:
  fixes f :: "'a \<Rightarrow> int"
  assumes "mset xs = mset ys"
  shows "sum_list (map f xs) = sum_list (map f ys)"
proof -
  have "sum_list (map f xs) = sum_mset (image_mset f (mset xs))"
    by (metis mset_map sum_mset_sum_list)
  also have "\<dots> = sum_mset (image_mset f (mset ys))"
    using assms by simp
  also have "\<dots> = sum_list (map f ys)"
    by (metis mset_map sum_mset_sum_list)
  finally show ?thesis .
qed

lemma reducefn_permutation:
  "mset value' = mset value \<Longrightarrow> reducefn key value' = reducefn key value"
  by (simp add: reducefn_sums sum_list_map_mset [of value' "value"])

lemma reducefn_regroup:
  "reducefn key (map (reducefn key') groups) = reducefn key (concat groups)"
  by (induction groups) (simp_all add: reducefn_sums)

text \<open>
  Claim C4. The reduce function of the pi estimation gives the same pair of totals for
  every permutation of the list of map outputs, and for every regrouping of it: reducing
  the groups one by one and then reducing the partial results gives what reducing the whole
  list gives. Hence two runs that complete the same map tasks, whichever worker completed
  each task and in whichever order, end in the same totals.
\<close>

theorem reducefn_permutation_and_regrouping:
  fixes run1 run2 :: "('worker \<times> 'task) list" and out :: "'task \<Rightarrow> int \<times> int"
  shows
  "(mset value' = mset value \<longrightarrow> reducefn key value' = reducefn key value) \<and>
   reducefn key (map (reducefn key) groups) = reducefn key (concat groups) \<and>
   (mset (concat groups) = mset value \<longrightarrow>
      reducefn key (map (reducefn key) groups) = reducefn key value) \<and>
   (mset (map snd run1) = mset (map snd run2) \<longrightarrow>
      reducefn key (map (\<lambda>(worker, task). out task) run1) =
      reducefn key (map (\<lambda>(worker, task). out task) run2))"
proof (intro conjI impI)
  assume "mset value' = mset value"
  then show "reducefn key value' = reducefn key value"
    by (rule reducefn_permutation)
next
  show "reducefn key (map (reducefn key) groups) = reducefn key (concat groups)"
    by (rule reducefn_regroup)
next
  assume "mset (concat groups) = mset value"
  then have "reducefn key (concat groups) = reducefn key value"
    by (rule reducefn_permutation)
  then show "reducefn key (map (reducefn key) groups) = reducefn key value"
    by (simp add: reducefn_regroup)
next
  assume "mset (map snd run1) = mset (map snd run2)"
  then have "mset (map out (map snd run1)) = mset (map out (map snd run2))"
    by (metis mset_map)
  then have same: "reducefn key (map out (map snd run1)) = reducefn key (map out (map snd run2))"
    by (rule reducefn_permutation)
  have "(\<lambda>(worker, task). out task) = out \<circ> (snd :: 'worker \<times> 'task \<Rightarrow> 'task)"
    by (simp add: fun_eq_iff)
  with same show "reducefn key (map (\<lambda>(worker, task). out task) run1) =
      reducefn key (map (\<lambda>(worker, task). out task) run2)"
    by (simp only: map_map)
qed

theorem reducefn_permutation_and_regrouping_witness:
  "mset [(3, 10), (7, 10), (8, 10 :: int)] = mset [(8, 10), (3, 10), (7 :: int, 10)] \<and>
   mset (concat [[(7, 10)], [(8, 10), (3, 10 :: int)]]) = mset [(8, 10), (3, 10), (7 :: int, 10)] \<and>
   mset (map snd [(''w1'', 1 :: nat), (''w2'', 2)]) = mset (map snd [(''w2'', 2), (''w2'', 1 :: nat)]) \<and>
   reducefn ''totals'' [(3, 10), (7, 10), (8, 10)] = reducefn ''totals'' [(8, 10), (3, 10), (7, 10)] \<and>
   reducefn ''totals'' (map (reducefn ''totals'') [[(7, 10)], [(8, 10), (3, 10)]]) =
     reducefn ''totals'' [(8, 10), (3, 10), (7, 10)] \<and>
   reducefn ''totals'' (map (\<lambda>(worker, task). (int task, 10)) [(''w1'', 1 :: nat), (''w2'', 2)]) =
     reducefn ''totals'' (map (\<lambda>(worker, task). (int task, 10)) [(''w2'', 2), (''w2'', 1 :: nat)])"
proof -
  have p1: "mset [(3, 10), (7, 10), (8, 10 :: int)] = mset [(8, 10), (3, 10), (7 :: int, 10)]"
    by (simp add: add_mset_commute)
  have p2: "mset (concat [[(7, 10)], [(8, 10), (3, 10 :: int)]]) =
      mset [(8, 10), (3, 10), (7 :: int, 10)]"
    by (simp add: add_mset_commute)
  have p3: "mset (map snd [(''w1'', 1 :: nat), (''w2'', 2)]) =
      mset (map snd [(''w2'', 2), (''w2'', 1 :: nat)])"
    by (simp add: add_mset_commute)
  show ?thesis
    using p1 p2 p3
      reducefn_permutation_and_regrouping
        [of "[(3, 10), (7, 10), (8, 10)]" "[(8, 10), (3, 10), (7, 10)]" "''totals''"
            "[[(7, 10)], [(8, 10), (3, 10)]]" "[(''w1'', 1 :: nat), (''w2'', 2)]"
            "[(''w2'', 2), (''w2'', 1 :: nat)]" "\<lambda>task. (int task, 10)"]
    by blast
qed




section \<open>Properties of the decorator\<close>

lemma call_print_hi_first:
  "call (print_hi_first f) s =
     (case func_body f s of
        (r, out, s') \<Rightarrow>
          (r, [Called ''inner'', Printed ''hi'', Called (func_name f)] @ out, s'))"
  by (simp add: call_def print_hi_first_def inner_def print_def split: prod.splits)

text \<open>
  Claim C6. For every zero-argument function \<open>f\<close>, a call of \<open>print_hi_first(f)\<close>
  prints \<open>hi\<close>, then calls \<open>f\<close> once (the effects of that one call follow, and
  nothing after them), and returns the value and leaves the state that \<open>f\<close> returned
  and left. The decorated definition of \<open>print_three\<close> binds the name
  \<open>print_three\<close> to this wrapper, and calling the name prints \<open>hi\<close> and then
  \<open>three\<close>.
\<close>

theorem print_hi_first_wraps:
  "call (print_hi_first f) s =
     (case func_body f s of
        (r, out, s') \<Rightarrow>
          (r, [Called ''inner'', Printed ''hi'', Called (func_name f)] @ out, s')) \<and>
   decorated_def print_hi_first ''print_three'' print_three_body g ''print_three'' =
     Some (print_hi_first (PyFunc ''print_three'' print_three_body)) \<and>
   call_name ''print_three''
       (decorated_def print_hi_first ''print_three'' print_three_body g) s' =
     Inr ((), [Called ''inner'', Printed ''hi'', Called ''print_three'', Printed ''three''], s') \<and>
   printed [Called ''inner'', Printed ''hi'', Called ''print_three'', Printed ''three''] =
     [''hi'', ''three'']"
  by (simp add: call_print_hi_first call_name_def decorated_def_def print_three_body_def
      print_def)

section \<open>Properties of the logger\<close>

lemma getEffectiveLevel_configured:
  "getEffectiveLevel (setLevel L (configured out)) = (if L \<noteq> NOTSET then L else DEBUG)"
  by (simp add: getEffectiveLevel_def setLevel_def configured_def basicConfig_def
      imported_def NOTSET_def DEBUG_def)

lemma log_at_configured:
  "stderr (log_at lvl msg (setLevel L (configured out))) =
     (if getEffectiveLevel (setLevel L (configured out)) \<le> lvl then out @ [msg] else out)"
proof (cases "L = 0")
  case True
  then show ?thesis
    by (simp add: log_at_def isEnabledFor_def getEffectiveLevel_def callHandlers_def
        setLevel_def configured_def basicConfig_def imported_def NOTSET_def DEBUG_def Let_def)
next
  case False
  then show ?thesis
    by (simp add: log_at_def isEnabledFor_def getEffectiveLevel_def callHandlers_def
        setLevel_def configured_def basicConfig_def imported_def NOTSET_def Let_def)
qed

text \<open>
  The model agrees with the outputs the notebook records: the first message is written,
  both messages are written at level DEBUG, and only the second one after
  \<open>log.setLevel(logging.INFO)\<close>.
\<close>

lemma notebook_recorded_output:
  "stderr (log_info ''my first log message'' (configured [])) = [''my first log message'']"
  "stderr (log_info ''my info message'' (log_debug ''my debug message'' (configured []))) =
     [''my debug message'', ''my info message'']"
  "stderr (log_info ''my info message''
     (log_debug ''my debug message'' (setLevel INFO (configured [])))) = [''my info message'']"
  by (simp_all add: log_info_def log_debug_def log_at_def isEnabledFor_def
      getEffectiveLevel_def callHandlers_def setLevel_def configured_def basicConfig_def
      imported_def NOTSET_def DEBUG_def INFO_def WARNING_def Let_def)

text \<open>
  Claim C7. For the logger of the logging notebook: after \<open>log.setLevel(logging.INFO)\<close>
  a call of \<open>log.debug\<close> writes nothing and a call of \<open>log.info\<close> writes its message.
  In general a message logged at level \<open>lvl\<close> is written exactly when \<open>lvl\<close> is at
  least the level in force for the logger; that level is the level \<open>L\<close> given to
  \<open>log.setLevel\<close>, unless \<open>L\<close> is NOTSET ("no level of its own"), when it is the
  level DEBUG that the notebook gave to \<open>basicConfig\<close>.
\<close>

theorem log_level_filter:
  "stderr (log_debug msg (setLevel INFO (configured out))) = out \<and>
   stderr (log_info msg (setLevel INFO (configured out))) = out @ [msg] \<and>
   (stderr (log_at lvl msg (setLevel L (configured out))) = out @ [msg] \<longleftrightarrow>
      getEffectiveLevel (setLevel L (configured out)) \<le> lvl) \<and>
   (stderr (log_at lvl msg (setLevel L (configured out))) = out \<longleftrightarrow>
      \<not> getEffectiveLevel (setLevel L (configured out)) \<le> lvl) \<and>
   getEffectiveLevel (setLevel L (configured out)) = (if L \<noteq> NOTSET then L else DEBUG) \<and>
   (L \<noteq> NOTSET \<longrightarrow>
      (stderr (log_at lvl msg (setLevel L (configured out))) = out @ [msg] \<longleftrightarrow> L \<le> lvl) \<and>
      (stderr (log_at lvl msg (setLevel L (configured out))) = out \<longleftrightarrow> \<not> L \<le> lvl))"
proof (intro conjI impI)
  show "stderr (log_debug msg (setLevel INFO (configured out))) = out"
    and "stderr (log_info msg (setLevel INFO (configured out))) = out @ [msg]"
    by (simp_all add: log_debug_def log_info_def log_at_configured
        getEffectiveLevel_configured DEBUG_def INFO_def NOTSET_def)
next
  show "stderr (log_at lvl msg (setLevel L (configured out))) = out @ [msg] \<longleftrightarrow>
      getEffectiveLevel (setLevel L (configured out)) \<le> lvl"
    and "stderr (log_at lvl msg (setLevel L (configured out))) = out \<longleftrightarrow>
      \<not> getEffectiveLevel (setLevel L (configured out)) \<le> lvl"
    by (simp_all add: log_at_configured)
next
  show "getEffectiveLevel (setLevel L (configured out)) = (if L \<noteq> NOTSET then L else DEBUG)"
    by (rule getEffectiveLevel_configured)
next
  assume "L \<noteq> NOTSET"
  then show "stderr (log_at lvl msg (setLevel L (configured out))) = out @ [msg] \<longleftrightarrow> L \<le> lvl"
    and "stderr (log_at lvl msg (setLevel L (configured out))) = out \<longleftrightarrow> \<not> L \<le> lvl"
    by (simp_all add: log_at_configured getEffectiveLevel_configured)
qed

theorem log_level_filter_witness:
  "WARNING \<noteq> NOTSET \<and>
   stderr (log_at ERROR ''e'' (setLevel WARNING (configured [''x'']))) = [''x'', ''e''] \<and>
   stderr (log_at INFO ''i'' (setLevel WARNING (configured [''x'']))) = [''x'']"
proof -
  have "WARNING \<noteq> NOTSET" and "WARNING \<le> ERROR" and "\<not> WARNING \<le> INFO"
    by (simp_all add: WARNING_def ERROR_def INFO_def NOTSET_def)
  then show ?thesis
    using log_level_filter [of "''e''" "[''x'']" ERROR WARNING]
      log_level_filter [of "''i''" "[''x'']" INFO WARNING]
    by simp
qed

end
